theory Spec2Isabelle
  imports Complex_Main
begin

section \<open>JavaScript values\<close>

text \<open>
  Tool outputs, fetch responses and the React state cells of the chat client are untyped
  at run time: \<^verbatim>\<open>part.output as Record<string, unknown>\<close> and \<^verbatim>\<open>result.shotId as number\<close>
  are unchecked casts. They are modelled by one type of JavaScript values. Numbers are
  only stored, compared with zero and printed, never computed with, so a finite number is
  a \<open>real\<close> and \<open>NaN\<close> (what \<^verbatim>\<open>parseInt\<close> gives on a non-numeric text) is a
  value of its own. An object is its list of properties.
\<close>

datatype jsval =
    Undefined
  | Null
  | Bool bool
  | Num real
  | NaN
  | Str string
  | Arr "jsval list"
  | Obj "(string \<times> jsval) list"

text \<open>Truthiness, as \<^verbatim>\<open>if (v)\<close>, \<^verbatim>\<open>!v\<close>, \<^verbatim>\<open>a && b\<close> and \<^verbatim>\<open>a || b\<close> read a value.\<close>

fun truthy :: "jsval \<Rightarrow> bool" where
  "truthy Undefined = False"
| "truthy Null = False"
| "truthy (Bool b) = b"
| "truthy (Num r) = (r \<noteq> 0)"
| "truthy NaN = False"
| "truthy (Str s) = (s \<noteq> [])"
| "truthy (Arr _) = True"
| "truthy (Obj _) = True"

text \<open>
  Reading a property, \<^verbatim>\<open>v?.k\<close>: the value stored under \<open>k\<close> in an object, \<open>Undefined\<close>
  for a missing key and for \<open>null\<close> and \<open>undefined\<close>. None of the keys the program
  reads (\<open>success\<close>, \<open>visualization\<close>, \<open>updateShotId\<close>, \<open>shotId\<close>, \<open>stones\<close>,
  \<open>player\<close>, \<open>team\<close>, \<open>shotType\<close>, \<open>shot\<close>, \<open>error\<close>) is a built-in property of a
  string, a number, a boolean or an array, so there as well the result is \<open>Undefined\<close>.
\<close>

fun get :: "jsval \<Rightarrow> string \<Rightarrow> jsval" where
  "get (Obj kvs) k = (case map_of kvs k of Some v \<Rightarrow> v | None \<Rightarrow> Undefined)"
| "get _ k = Undefined"

text \<open>
  What a \<^verbatim>\<open>catch (error)\<close> clause can receive: an instance of \<^verbatim>\<open>Error\<close> with its
  message, or any other thrown value.
\<close>

datatype exn = Error string | Thrown jsval

text \<open>
  \<^verbatim>\<open>error instanceof Error ? error.message : String(error)\<close>; \<open>toStr\<close> is JavaScript's
  conversion of a value to a string, a parameter of every function that prints a value.
\<close>

fun error_message :: "(jsval \<Rightarrow> string) \<Rightarrow> exn \<Rightarrow> string" where
  "error_message toStr (Error m) = m"
| "error_message toStr (Thrown v) = toStr v"

section \<open>Messages and tool-invocation parts\<close>

datatype role = User | Assistant | System

datatype tool_state = InputStreaming | InputAvailable | OutputAvailable | OutputError

text \<open>
  A part of a message. A tool part carries its \<open>type\<close> (\<^verbatim>\<open>"tool-" + toolName\<close>), its
  \<open>toolCallId\<close>, its \<open>state\<close>, its \<open>input\<close> and its \<open>output\<close>; \<^verbatim>\<open>isToolUIPart\<close> holds of
  the parts built with \<open>ToolUIPart\<close> and of no other.
\<close>

datatype part =
    TextUIPart string
  | ToolUIPart string string tool_state jsval jsval
  | OtherUIPart string

record message =
  msg_id :: string
  role :: role
  parts :: "part list"

section \<open>The chat client (app.tsx): state and the tool-result observer\<close>

text \<open>
  The React state of \<^verbatim>\<open>Chat\<close> that the observer touches: \<open>currentShot\<close> (the
  visualization state, \<open>null\<close> at first), \<open>shotId\<close> (42 at first) and
  \<open>processedToolCalls\<close> (empty at first). Two more fields record what the component
  sends out: the URLs it has passed to \<^verbatim>\<open>fetch\<close> and the texts it has passed to
  \<^verbatim>\<open>sendMessage\<close>, both in order.
\<close>

record client =
  currentShot :: jsval
  shotId :: jsval
  processedToolCalls :: "string set"
  fetched :: "string list"
  sent :: "string list"

definition initial_client :: client where
  "initial_client =
     \<lparr>currentShot = Null, shotId = Num 42, processedToolCalls = {}, fetched = [], sent = []\<rparr>"

text \<open>
  What the body of the observer does is call state setters and \<open>handleShotQuery\<close>. The
  setters do not change what the running effect reads: \<open>processedToolCalls\<close> inside the
  effect is the value of the render that scheduled it. So a pass first yields the calls
  it makes, in order, and React then applies them.
\<close>

datatype action =
    SetCurrentShot jsval
  | SetShotId jsval
  | HandleShotQuery jsval
  | SetProcessedToolCalls string

text \<open>
  The callback of the inner \<^verbatim>\<open>forEach\<close> (app.tsx, the tool-result \<^verbatim>\<open>useEffect\<close>), for one
  part of an assistant message. The two \<^verbatim>\<open>if\<close> statements follow each other, as in the
  source. \<open>processed\<close> is the set the effect closed over.
\<close>

fun observe_part :: "string set \<Rightarrow> part \<Rightarrow> action list" where
  "observe_part processed (ToolUIPart ty toolCallId st inp result) =
     (if st = OutputAvailable then
        if toolCallId \<in> processed then []
        else
          (if ty = ''tool-visualizeCurlingShot'' \<and> truthy (get result ''success'')
               \<and> truthy (get result ''visualization'')
           then
             let viz = get result ''visualization'' in
             [SetCurrentShot
                (Obj [(''stones'', get viz ''stones''),
                      (''shotInfo'',
                       Obj [(''player'', get viz ''player''),
                            (''team'', get viz ''team''),
                            (''type'', get viz ''shotType''),
                            (''shotId'', get viz ''shotId'')])]),
              SetProcessedToolCalls toolCallId]
           else [])
          @
          (if ty = ''tool-setShotId'' \<and> truthy (get result ''success'')
               \<and> truthy (get result ''updateShotId'')
           then
             let newShotId = get result ''shotId'' in
             [SetShotId newShotId, HandleShotQuery newShotId, SetProcessedToolCalls toolCallId]
           else [])
      else [])"
| "observe_part processed (TextUIPart t) = []"
| "observe_part processed (OtherUIPart ty) = []"

definition observe_message :: "string set \<Rightarrow> message \<Rightarrow> action list" where
  "observe_message processed m =
     (if role m = Assistant then concat (map (observe_part processed) (parts m)) else [])"

definition observer_effect :: "string set \<Rightarrow> message list \<Rightarrow> action list" where
  "observer_effect processed agentMessages =
     concat (map (observe_message processed) agentMessages)"

text \<open>
  Applying one call. \<^verbatim>\<open>setProcessedToolCalls((prev) => new Set(prev).add(toolCallId))\<close> is
  a functional update, so it adds to the set as the earlier updates of the same pass left
  it. \<open>handleShotQuery\<close> starts with \<^verbatim>\<open>fetch(`/api/shot?id=${shotId}`)\<close>; what it does
  when the response arrives is \<open>handleShotQuery_settled\<close> below.
\<close>

fun apply_action :: "(jsval \<Rightarrow> string) \<Rightarrow> client \<Rightarrow> action \<Rightarrow> client" where
  "apply_action toStr c (SetCurrentShot v) = c\<lparr>currentShot := v\<rparr>"
| "apply_action toStr c (SetShotId v) = c\<lparr>shotId := v\<rparr>"
| "apply_action toStr c (HandleShotQuery v) =
     c\<lparr>fetched := fetched c @ [''/api/shot?id='' @ toStr v]\<rparr>"
| "apply_action toStr c (SetProcessedToolCalls toolCallId) =
     c\<lparr>processedToolCalls := insert toolCallId (processedToolCalls c)\<rparr>"

definition observer_pass :: "(jsval \<Rightarrow> string) \<Rightarrow> client \<Rightarrow> message list \<Rightarrow> client" where
  "observer_pass toStr c agentMessages =
     foldl (apply_action toStr) c (observer_effect (processedToolCalls c) agentMessages)"

text \<open>
  \<open>handleShotQuery\<close> once its \<^verbatim>\<open>fetch\<close> has settled. \<open>response\<close> is what
  \<^verbatim>\<open>await response.json()\<close> gave: \<open>Inl\<close> when \<^verbatim>\<open>fetch\<close> or \<^verbatim>\<open>json()\<close> rejected, the
  parsed body otherwise. Reading \<^verbatim>\<open>data.success\<close> of \<open>null\<close> throws a \<^verbatim>\<open>TypeError\<close>
  (the text is V8's) into the same \<^verbatim>\<open>catch\<close>. A body is accepted when \<open>success\<close>,
  \<open>shot\<close> and \<open>stones\<close> are all truthy, and then becomes \<open>currentShot\<close> as it is.
\<close>

definition sendMessage :: "string \<Rightarrow> client \<Rightarrow> client" where
  "sendMessage t c = c\<lparr>sent := sent c @ [t]\<rparr>"

definition read_body :: "(jsval \<Rightarrow> string) \<Rightarrow> exn + jsval \<Rightarrow> exn + jsval" where
  "read_body toStr response =
     (case response of
        Inl e \<Rightarrow> Inl e
      | Inr data \<Rightarrow>
          if data = Null \<or> data = Undefined
          then Inl (Error (''Cannot read properties of '' @ toStr data @ '' (reading 'success')''))
          else Inr data)"

definition handleShotQuery_settled ::
    "(jsval \<Rightarrow> string) \<Rightarrow> jsval \<Rightarrow> exn + jsval \<Rightarrow> client \<Rightarrow> client" where
  "handleShotQuery_settled toStr sid response c =
     (case read_body toStr response of
        Inr data \<Rightarrow>
          if truthy (get data ''success'') \<and> truthy (get data ''shot'')
               \<and> truthy (get data ''stones'')
          then c\<lparr>currentShot := data\<rparr>
          else sendMessage
                 (''Error: '' @
                    (if truthy (get data ''error'') then toStr (get data ''error'')
                     else ''Shot '' @ toStr sid @ '' not found'')) c
      | Inl error \<Rightarrow>
          sendMessage
            (''Error querying shot '' @ toStr sid @ '': '' @
               (case error of Error m \<Rightarrow> m | Thrown v \<Rightarrow> ''Unknown error'')) c)"

text \<open>
  What can happen to the client during a chat session, as far as the state above goes:
  \<^item> \<open>MessagesChanged\<close>: the tool-result effect runs over the current message list (it
    runs whenever \<open>agentMessages\<close> or \<open>processedToolCalls\<close> changes; \<^verbatim>\<open>clearHistory\<close>
    is the case of the empty list);
  \<^item> \<open>ShotQuerySettled\<close>: a \<open>handleShotQuery\<close> call gets its response;
  \<^item> \<open>ShotIdEffect\<close>: the effect on \<^verbatim>\<open>[handleShotQuery, shotId]\<close> runs (on mount and
    after \<open>shotId\<close> has changed): \<^verbatim>\<open>if (shotId) handleShotQuery(shotId)\<close>;
  \<^item> \<open>ShotIdInput\<close>: the Shot ID box changes and \<^verbatim>\<open>parseInt(value, 10)\<close> gives the
    value carried: \<^verbatim>\<open>setShotId(id); if (!Number.isNaN(id)) handleShotQuery(id)\<close>.
\<close>

datatype event =
    MessagesChanged "message list"
  | ShotQuerySettled jsval "exn + jsval"
  | ShotIdEffect
  | ShotIdInput jsval

fun step :: "(jsval \<Rightarrow> string) \<Rightarrow> client \<Rightarrow> event \<Rightarrow> client" where
  "step toStr c (MessagesChanged agentMessages) = observer_pass toStr c agentMessages"
| "step toStr c (ShotQuerySettled sid response) = handleShotQuery_settled toStr sid response c"
| "step toStr c ShotIdEffect =
     (if truthy (shotId c) then apply_action toStr c (HandleShotQuery (shotId c)) else c)"
| "step toStr c (ShotIdInput v) =
     (let c' = apply_action toStr c (SetShotId v)
      in if v \<noteq> NaN then apply_action toStr c' (HandleShotQuery v) else c')"

definition run :: "(jsval \<Rightarrow> string) \<Rightarrow> client \<Rightarrow> event list \<Rightarrow> client" where
  "run toStr c es = foldl (step toStr) c es"

text \<open>The parts of the assistant messages of a list, in the order the observer visits them.\<close>

definition assistant_parts :: "message list \<Rightarrow> part list" where
  "assistant_parts agentMessages =
     concat (map (\<lambda>m. if role m = Assistant then parts m else []) agentMessages)"

text \<open>An output-available tool part with the call id \<open>t\<close>.\<close>

fun carries :: "string \<Rightarrow> part \<Rightarrow> bool" where
  "carries t (ToolUIPart ty toolCallId st inp result) = (toolCallId = t \<and> st = OutputAvailable)"
| "carries t _ = False"

text \<open>
  Counting, for the statements about the observer: how many output-available tool parts of
  the assistant messages of a list carry the id \<open>t\<close>, and on how many of them a pass
  acts, that is, makes any call at all (a setter or \<open>handleShotQuery\<close>).
\<close>

definition occurrences :: "string \<Rightarrow> message list \<Rightarrow> nat" where
  "occurrences t agentMessages = length (filter (carries t) (assistant_parts agentMessages))"

definition dispatches :: "string \<Rightarrow> string set \<Rightarrow> message list \<Rightarrow> nat" where
  "dispatches t processed agentMessages =
     length (filter (\<lambda>p. carries t p \<and> observe_part processed p \<noteq> [])
               (assistant_parts agentMessages))"

fun is_SetCurrentShot :: "action \<Rightarrow> bool" where
  "is_SetCurrentShot (SetCurrentShot v) = True"
| "is_SetCurrentShot _ = False"

text \<open>The parts whose tool the observer knows, told by their type.\<close>

fun recognized :: "part \<Rightarrow> bool" where
  "recognized (ToolUIPart ty toolCallId st inp result) =
     (ty = ''tool-visualizeCurlingShot'' \<or> ty = ''tool-setShotId'')"
| "recognized _ = False"

text \<open>
  A part whose dispatch succeeds: its output is available, its tool is known,
  \<open>success\<close> is truthy and so is the payload field of its tool.
\<close>

fun succeeded :: "part \<Rightarrow> bool" where
  "succeeded (ToolUIPart ty toolCallId st inp result) =
     (st = OutputAvailable \<and> truthy (get result ''success'')
      \<and> ((ty = ''tool-visualizeCurlingShot'' \<and> truthy (get result ''visualization''))
           \<or> (ty = ''tool-setShotId'' \<and> truthy (get result ''updateShotId''))))"
| "succeeded _ = False"

text \<open>The dispatches of the id \<open>t\<close> over a run of events, pass by pass.\<close>

fun total_dispatches :: "(jsval \<Rightarrow> string) \<Rightarrow> string \<Rightarrow> client \<Rightarrow> event list \<Rightarrow> nat" where
  "total_dispatches toStr t c [] = 0"
| "total_dispatches toStr t c (MessagesChanged agentMessages # es) =
     dispatches t (processedToolCalls c) agentMessages
       + total_dispatches toStr t (observer_pass toStr c agentMessages) es"
| "total_dispatches toStr t c (e # es) = total_dispatches toStr t (step toStr c e) es"

text \<open>
  What follows a change of the message list. The tool-result effect runs over the list.
  Its setters make React render again, and in that render each effect whose dependencies
  have changed runs, in the order of the source: first the effect on
  \<^verbatim>\<open>[handleShotQuery, shotId]\<close>, when \<open>shotId\<close> is no longer the value it was, then the
  tool-result effect over the same list, when \<open>processedToolCalls\<close> is a new set.
\<close>

definition render_cycle :: "(jsval \<Rightarrow> string) \<Rightarrow> client \<Rightarrow> message list \<Rightarrow> client" where
  "render_cycle toStr c agentMessages =
     (let c1 = observer_pass toStr c agentMessages;
          c2 = (if shotId c1 \<noteq> shotId c then step toStr c1 ShotIdEffect else c1)
      in if processedToolCalls c1 \<noteq> processedToolCalls c
         then observer_pass toStr c2 agentMessages else c2)"

section \<open>The tools (tools.ts)\<close>

subsection \<open>Strings\<close>

text \<open>
  Query texts are strings of Latin-1 characters. \<^verbatim>\<open>trim()\<close> strips white space and line
  terminators from both ends; in this range they are TAB, LF, VT, FF, CR, SPACE and
  NBSP. \<^verbatim>\<open>toLowerCase()\<close> maps \<open>A\<close> to \<open>Z\<close> and the accented capitals (all of
  \<open>0xC0\<close> to \<open>0xDE\<close> but the multiplication sign) 32 places up.
\<close>

definition isWhiteSpace :: "char \<Rightarrow> bool" where
  "isWhiteSpace c = (of_char c \<in> {9, 10, 11, 12, 13, 32, 160 :: nat})"

definition trim :: "string \<Rightarrow> string" where
  "trim s = rev (dropWhile isWhiteSpace (rev (dropWhile isWhiteSpace s)))"

definition lower_char :: "char \<Rightarrow> char" where
  "lower_char c =
     (let n = of_char c :: nat
      in if (65 \<le> n \<and> n \<le> 90) \<or> (192 \<le> n \<and> n \<le> 222 \<and> n \<noteq> 215)
         then char_of (n + 32) else c)"

definition toLowerCase :: "string \<Rightarrow> string" where
  "toLowerCase s = map lower_char s"

definition startsWith :: "string \<Rightarrow> string \<Rightarrow> bool" where
  "startsWith s p = (take (length p) s = p)"

subsection \<open>The database binding\<close>

text \<open>
  \<^verbatim>\<open>env.DB\<close> is a D1 binding or absent. A statement is prepared from a query text,
  bound to parameters or not, and run with \<^verbatim>\<open>all()\<close> or \<^verbatim>\<open>first()\<close>; each of the three
  calls may throw, into the \<^verbatim>\<open>catch\<close> around them all, so one function stands for the
  chain. \<^verbatim>\<open>all()\<close> gives \<^verbatim>\<open>{results, meta}\<close>, where \<open>results\<close> may be missing;
  \<^verbatim>\<open>first()\<close> gives a row or \<open>null\<close>. The tools also return the statements they have
  submitted, in order.
\<close>

record d1_result =
  results :: "jsval list option"
  meta :: jsval

record d1 =
  d1_all :: "string \<Rightarrow> jsval list option \<Rightarrow> exn + d1_result"
  d1_first :: "string \<Rightarrow> jsval list \<Rightarrow> exn + jsval"

datatype d1_call = RunAll string "jsval list option" | RunFirst string "jsval list"

definition failure :: "string \<Rightarrow> jsval" where
  "failure msg = Obj [(''success'', Bool False), (''error'', Str msg)]"

subsection \<open>queryDatabase\<close>

text \<open>
  \<^verbatim>\<open>params && params.length > 0\<close>: the statement is bound to the parameters when there
  are some, and run unbound otherwise.
\<close>

definition bound_params :: "jsval list option \<Rightarrow> jsval list option" where
  "bound_params params =
     (case params of Some ps \<Rightarrow> if length ps > 0 then Some ps else None | None \<Rightarrow> None)"

text \<open>
  \<^verbatim>\<open>execute\<close> of \<open>queryDatabase\<close>. Nothing before the database call can throw, so
  the \<^verbatim>\<open>catch\<close> is the \<open>Inl\<close> case of that call. The statement is prepared from
  \<open>query\<close> as given, not from the trimmed text.
\<close>

definition queryDatabase_execute ::
    "(jsval \<Rightarrow> string) \<Rightarrow> d1 option \<Rightarrow> string \<Rightarrow> jsval list option \<Rightarrow> jsval \<times> d1_call list"
  where
  "queryDatabase_execute toStr DB query params =
     (let trimmedQuery = toLowerCase (trim query) in
      if \<not> startsWith trimmedQuery ''select'' then
        (failure
           ''Only SELECT queries are allowed with this tool. Use querySQLiteDatabase for other operations.'',
         [])
      else
        case DB of
          None \<Rightarrow> (failure ''Database not configured. Please set up D1 binding.'', [])
        | Some db \<Rightarrow>
            let bound = bound_params params
            in (case d1_all db query bound of
                  Inr result \<Rightarrow>
                    (Obj [(''success'', Bool True),
                          (''rows'', case results result of Some rs \<Rightarrow> Arr rs | None \<Rightarrow> Undefined),
                          (''count'',
                           case results result of
                             Some rs \<Rightarrow> Num (real (length rs))
                           | None \<Rightarrow> Num 0),
                          (''meta'', meta result)],
                     [RunAll query bound])
                | Inl error \<Rightarrow> (failure (error_message toStr error), [RunAll query bound])))"

subsection \<open>queryShotDetails\<close>

text \<open>The two query texts, with the layout of the template literals reduced to single spaces.\<close>

definition shotQuery :: string where
  "shotQuery = ''SELECT s.id as shot_id, s.number as shot_number, s.color as shot_color, s.team as shot_team, s.player_name, s.type as shot_type, s.turn, s.percent_score, e.id as end_id, e.number as end_number, e.direction, e.color_hammer, e.score_red, e.score_yellow, g.id as game_id, g.session, g.name as game_name, g.sheet, g.type as game_type, g.start_date, g.start_time, g.team_red, g.team_yellow, g.final_score_red, g.final_score_yellow, ev.name as event_name, ev.start_date as event_start_date, ev.end_date as event_end_date FROM shots s JOIN ends e ON s.end_id = e.id JOIN games g ON e.game_id = g.id JOIN events ev ON g.event_id = ev.id WHERE s.id = ?''"

definition stoneQuery :: string where
  "stoneQuery = ''SELECT color, x, y FROM stone_positions WHERE shot_id = ? ORDER BY id''"

text \<open>
  The \<^verbatim>\<open>try\<close> block of \<^verbatim>\<open>execute\<close>: \<open>Inl\<close> is an exception thrown inside it. The
  validated input \<open>shotId\<close> is a number, here \<open>sid\<close>.
\<close>

definition queryShotDetails_try ::
    "(jsval \<Rightarrow> string) \<Rightarrow> d1 option \<Rightarrow> real \<Rightarrow> (exn + jsval) \<times> d1_call list" where
  "queryShotDetails_try toStr DB sid =
     (case DB of
        None \<Rightarrow> (Inr (failure ''Database not configured. Please set up D1 binding.''), [])
      | Some db \<Rightarrow>
          (case d1_first db shotQuery [Num sid] of
             Inl error \<Rightarrow> (Inl error, [RunFirst shotQuery [Num sid]])
           | Inr shotResult \<Rightarrow>
               if \<not> truthy shotResult then
                 (Inr (failure (''Shot with ID '' @ toStr (Num sid) @ '' not found'')),
                  [RunFirst shotQuery [Num sid]])
               else
                 (case d1_all db stoneQuery (Some [Num sid]) of
                    Inl error \<Rightarrow>
                      (Inl error,
                       [RunFirst shotQuery [Num sid], RunAll stoneQuery (Some [Num sid])])
                  | Inr stoneResult \<Rightarrow>
                      (let stones = (case results stoneResult of Some rs \<Rightarrow> rs | None \<Rightarrow> [])
                       in Inr (Obj [(''success'', Bool True),
                                    (''shot'', shotResult),
                                    (''stones'', Arr stones),
                                    (''count'', Num (real (length stones)))]),
                       [RunFirst shotQuery [Num sid], RunAll stoneQuery (Some [Num sid])]))))"

text \<open>
  \<^verbatim>\<open>execute\<close> with its \<^verbatim>\<open>catch\<close>. The result type keeps the \<open>Inl\<close> for an exception
  that would leave \<^verbatim>\<open>execute\<close>.
\<close>

definition queryShotDetails_execute ::
    "(jsval \<Rightarrow> string) \<Rightarrow> d1 option \<Rightarrow> real \<Rightarrow> (exn + jsval) \<times> d1_call list" where
  "queryShotDetails_execute toStr DB sid =
     (case queryShotDetails_try toStr DB sid of
        (Inr out, calls) \<Rightarrow> (Inr out, calls)
      | (Inl error, calls) \<Rightarrow> (Inr (failure (error_message toStr error)), calls))"

subsection \<open>visualizeCurlingShot and setShotId\<close>

datatype color = Red | Yellow

datatype stone = Stone color real real

fun stone_val :: "stone \<Rightarrow> jsval" where
  "stone_val (Stone c x y) =
     Obj [(''color'', Str (case c of Red \<Rightarrow> ''red'' | Yellow \<Rightarrow> ''yellow'')),
          (''x'', Num x), (''y'', Num y)]"

definition visualizeCurlingShot_execute ::
    "(jsval \<Rightarrow> string) \<Rightarrow> real \<Rightarrow> string \<Rightarrow> string \<Rightarrow> string \<Rightarrow> stone list \<Rightarrow> jsval" where
  "visualizeCurlingShot_execute toStr sid player team shotType stones =
     Obj [(''success'', Bool True),
          (''visualization'',
           Obj [(''shotId'', Num sid),
                (''player'', Str player),
                (''team'', Str team),
                (''shotType'', Str shotType),
                (''stones'', Arr (map stone_val stones))]),
          (''message'',
           Str (''Visualized shot '' @ toStr (Num sid) @ '' by '' @ player @ '' ('' @ team
                @ ''): '' @ shotType @ '' with '' @ toStr (Num (real (length stones)))
                @ '' stones in play.''))]"

definition setShotId_execute :: "(jsval \<Rightarrow> string) \<Rightarrow> real \<Rightarrow> string option \<Rightarrow> jsval" where
  "setShotId_execute toStr sid reason =
     Obj [(''success'', Bool True),
          (''shotId'', Num sid),
          (''message'',
           Str (case reason of
                  Some r \<Rightarrow> if r \<noteq> [] then r else ''Updated display to show shot '' @ toStr (Num sid)
                | None \<Rightarrow> ''Updated display to show shot '' @ toStr (Num sid))),
          (''updateShotId'', Bool True)]"

subsection \<open>Printing whole numbers\<close>

text \<open>
  JavaScript's conversion to a string, for the examples: whole numbers of magnitude below
  \<open>10^21\<close> in decimal (the examples print no other number), strings as they are,
  \<open>true\<close>, \<open>false\<close>, \<open>null\<close>, \<open>undefined\<close>, \<open>NaN\<close>, arrays joined by
  commas. The theorems hold for every conversion; this one makes the examples concrete.
\<close>

fun decimal :: "nat \<Rightarrow> string" where
  "decimal n = (if n < 10 then [''0123456789'' ! n] else decimal (n div 10) @ [''0123456789'' ! (n mod 10)])"

fun join_commas :: "string list \<Rightarrow> string" where
  "join_commas [] = []"
| "join_commas [s] = s"
| "join_commas (s # t # ss) = s @ '','' @ join_commas (t # ss)"

fun toStr_whole :: "jsval \<Rightarrow> string" where
  "toStr_whole (Num r) = (if r < 0 then ''-'' else []) @ decimal (nat \<lfloor>\<bar>r\<bar>\<rfloor>)"
| "toStr_whole (Str s) = s"
| "toStr_whole (Bool b) = (if b then ''true'' else ''false'')"
| "toStr_whole Null = ''null''"
| "toStr_whole Undefined = ''undefined''"
| "toStr_whole NaN = ''NaN''"
| "toStr_whole (Arr vs) =
     join_commas (map (\<lambda>v. if v = Null \<or> v = Undefined then [] else toStr_whole v) vs)"
| "toStr_whole (Obj kvs) = ''[object Object]''"

section \<open>The server turn (server.ts): what \<^verbatim>\<open>onChatMessage\<close> calls\<close>

subsection \<open>cleanupMessages\<close>






subsection \<open>The step loop of \<^verbatim>\<open>streamText\<close>\<close>

text \<open>
  Modelled from the spec: the loop that \<^verbatim>\<open>streamText\<close> (package \<^verbatim>\<open>ai\<close>) runs is not
  among the sources; \<^verbatim>\<open>onChatMessage\<close> only calls it, with
  \<^verbatim>\<open>stopWhen: stepCountIs(10)\<close>. The spec (4.3, 7): in each step the model emits text
  and may request tool calls; each requested call whose tool declares \<open>execute\<close> is run
  and its result fed back before the next step; a tool that throws gives an
  \<open>output-error\<close> part, and so does an unknown tool name; a call that needs a
  confirmation and has no decision stays \<open>input-available\<close> and halts the loop. The
  loop ends when a step requests no call, or when the step bound is reached, which is a
  normal end and no error. First the data: a requested call (id, tool name, input) and a
  tool definition (\<open>requiresConfirmation\<close> and the optional \<open>execute\<close>, spec 3).
\<close>

datatype tool_request = ToolRequest string string jsval

datatype tool_def = ToolDef bool "(jsval \<Rightarrow> exn + jsval) option"

type_synonym registry = "string \<Rightarrow> tool_def option"

text \<open>
  Modelled from the spec: what one requested call becomes (spec 4.2, 4.3): an
  \<open>output-error\<close> part for an unknown tool or a tool that throws, an
  \<open>output-available\<close> part with the result of \<open>execute\<close>, and a part left in
  \<open>input-available\<close> for a tool without \<open>execute\<close>, which waits for a decision.
\<close>

fun run_call :: "(jsval \<Rightarrow> string) \<Rightarrow> registry \<Rightarrow> tool_request \<Rightarrow> part" where
  "run_call toStr reg (ToolRequest toolCallId name inp) =
     (case reg name of
        None \<Rightarrow>
          ToolUIPart (''tool-'' @ name) toolCallId OutputError inp
            (Obj [(''error'', Str ''unknown tool'')])
      | Some (ToolDef requiresConfirmation None) \<Rightarrow>
          ToolUIPart (''tool-'' @ name) toolCallId InputAvailable inp Undefined
      | Some (ToolDef requiresConfirmation (Some execute)) \<Rightarrow>
          (case execute inp of
             Inr out \<Rightarrow> ToolUIPart (''tool-'' @ name) toolCallId OutputAvailable inp out
           | Inl error \<Rightarrow>
               ToolUIPart (''tool-'' @ name) toolCallId OutputError inp
                 (Obj [(''error'', Str (error_message toStr error))])))"

fun pending :: "part \<Rightarrow> bool" where
  "pending (ToolUIPart ty toolCallId st inp out) = (st = InputAvailable)"
| "pending _ = False"

text \<open>
  A step is the text and the tool parts it produced. The language model is any function
  of the history and the steps so far.
\<close>

type_synonym model_step = "string \<times> part list"

type_synonym language_model =
  "message list \<Rightarrow> model_step list \<Rightarrow> string \<times> tool_request list"

datatype turn_end = FinalAnswer | AwaitingConfirmation | StepBoundReached

text \<open>Modelled from the spec: one step, the model's text and the parts of its calls.\<close>

definition run_step ::
    "(jsval \<Rightarrow> string) \<Rightarrow> registry \<Rightarrow> language_model \<Rightarrow> message list \<Rightarrow> model_step list
       \<Rightarrow> model_step" where
  "run_step toStr reg llm history steps =
     (fst (llm history steps), map (run_call toStr reg) (snd (llm history steps)))"

text \<open>
  Modelled from the spec: the loop (spec 4.3), from the steps made so far. It ends with a
  final answer, with a call awaiting confirmation, or at the step bound.
\<close>

function model_loop ::
    "nat \<Rightarrow> (jsval \<Rightarrow> string) \<Rightarrow> registry \<Rightarrow> language_model \<Rightarrow> message list
       \<Rightarrow> model_step list \<Rightarrow> model_step list \<times> turn_end" where
  "model_loop maxSteps toStr reg llm history steps =
     (if snd (run_step toStr reg llm history steps) = [] then
        (steps @ [run_step toStr reg llm history steps], FinalAnswer)
      else if list_ex pending (snd (run_step toStr reg llm history steps)) then
        (steps @ [run_step toStr reg llm history steps], AwaitingConfirmation)
      else if maxSteps \<le> Suc (length steps) then
        (steps @ [run_step toStr reg llm history steps], StepBoundReached)
      else model_loop maxSteps toStr reg llm history
             (steps @ [run_step toStr reg llm history steps]))"
  by pat_completeness auto
termination
  by (relation "measure (\<lambda>(maxSteps, toStr, reg, llm, history, steps). maxSteps - length steps)")
    auto

text \<open>
  Modelled from the spec: the call in \<^verbatim>\<open>onChatMessage\<close>; the bound is the 10 of
  \<^verbatim>\<open>stepCountIs(10)\<close> and the turn starts with no step.
\<close>

definition streamText ::
    "(jsval \<Rightarrow> string) \<Rightarrow> registry \<Rightarrow> language_model \<Rightarrow> message list
       \<Rightarrow> model_step list \<times> turn_end" where
  "streamText toStr reg llm history = model_loop 10 toStr reg llm history []"

text \<open>
  A model that asks for a tool call in every step, none of them one that waits for a
  confirmation (tools.ts: every tool declares \<open>execute\<close>, none requires confirmation).
\<close>

fun runs_unattended :: "registry \<Rightarrow> tool_request \<Rightarrow> bool" where
  "runs_unattended reg (ToolRequest toolCallId name inp) =
     (case reg name of Some (ToolDef requiresConfirmation None) \<Rightarrow> False | _ \<Rightarrow> True)"

definition always_requests :: "registry \<Rightarrow> language_model \<Rightarrow> bool" where
  "always_requests reg llm \<longleftrightarrow>
     (\<forall>history steps.
        snd (llm history steps) \<noteq> [] \<and> list_all (runs_unattended reg) (snd (llm history steps)))"

declare model_loop.simps [simp del]

section \<open>Concrete inputs for the examples\<close>

definition example_stones :: "stone list" where
  "example_stones = [Stone Red 10 (- 20), Stone Yellow 0 5]"

definition example_visualization :: part where
  "example_visualization =
     ToolUIPart ''tool-visualizeCurlingShot'' ''call-1'' OutputAvailable
       (Obj [(''shotId'', Num 42)])
       (visualizeCurlingShot_execute toStr_whole 42 ''Gushue'' ''CAN'' ''Draw'' example_stones)"

definition example_setShotId :: part where
  "example_setShotId =
     ToolUIPart ''tool-setShotId'' ''call-2'' OutputAvailable
       (Obj [(''shotId'', Num 42)]) (setShotId_execute toStr_whole 42 None)"

text \<open>One assistant message that holds the same tool part twice.\<close>

definition duplicated_list :: "message list" where
  "duplicated_list =
     [\<lparr>msg_id = ''m1'', role = Assistant,
       parts = [example_visualization, example_visualization]\<rparr>]"

definition single_list :: "message list" where
  "single_list = [\<lparr>msg_id = ''m1'', role = Assistant, parts = [example_visualization]\<rparr>]"

text \<open>
  The conversation of the spec's scenario: the user asks for shot 42 and the assistant
  answers with \<open>setShotId\<close>, \<open>queryShotDetails\<close> and \<open>visualizeCurlingShot\<close>.
\<close>

definition example_queryShotDetails :: part where
  "example_queryShotDetails =
     ToolUIPart ''tool-queryShotDetails'' ''call-3'' OutputAvailable
       (Obj [(''shotId'', Num 42)])
       (Obj [(''success'', Bool True), (''shot'', Obj [(''shot_id'', Num 42)]),
             (''stones'', Arr (map stone_val example_stones)), (''count'', Num 2)])"

definition scenario_conversation :: "message list" where
  "scenario_conversation =
     [\<lparr>msg_id = ''u1'', role = User, parts = [TextUIPart ''shot 42'']\<rparr>,
      \<lparr>msg_id = ''a1'', role = Assistant,
       parts = [example_setShotId, example_queryShotDetails, example_visualization]\<rparr>]"

text \<open>
  The client once mounted (the effect on \<open>shotId\<close> has run for the initial 42), and a
  conversation in which the assistant sets the shot id to 7.
\<close>

definition mounted_client :: client where
  "mounted_client = step toStr_whole initial_client ShotIdEffect"

definition shot7_conversation :: "message list" where
  "shot7_conversation =
     [\<lparr>msg_id = ''u1'', role = User, parts = [TextUIPart ''show me shot 7'']\<rparr>,
      \<lparr>msg_id = ''a1'', role = Assistant,
       parts = [TextUIPart ''Here is shot 7.'',
                ToolUIPart ''tool-setShotId'' ''call-7'' OutputAvailable
                  (Obj [(''shotId'', Num 7)]) (setShotId_execute toStr_whole 7 None)]\<rparr>]"

text \<open>A database with no rows, and one whose every statement throws.\<close>

definition empty_db :: d1 where
  "empty_db =
     \<lparr>d1_all = (\<lambda>q ps. Inr \<lparr>results = Some [], meta = Null\<rparr>),
      d1_first = (\<lambda>q ps. Inr Null)\<rparr>"

definition failing_db :: d1 where
  "failing_db =
     \<lparr>d1_all = (\<lambda>q ps. Inl (Error ''D1_ERROR: no such table'')),
      d1_first = (\<lambda>q ps. Inl (Error ''D1_ERROR: no such table''))\<rparr>"

text \<open>A database that has the shot, and throws a string when asked for its stones.\<close>

definition stones_failing_db :: d1 where
  "stones_failing_db =
     \<lparr>d1_all = (\<lambda>q ps. Inl (Thrown (Str ''timeout''))),
      d1_first = (\<lambda>q ps. Inr (Obj [(''shot_id'', Num 42), (''player_name'', Str ''Gushue'')]))\<rparr>"



text \<open>A registry with one tool, and a model that requests it in every step.\<close>

definition example_registry :: registry where
  "example_registry =
     (\<lambda>name. if name = ''setShotId''
              then Some (ToolDef False (Some (\<lambda>inp. Inr (setShotId_execute toStr_whole 42 None))))
              else None)"

definition eager_model :: language_model where
  "eager_model =
     (\<lambda>history steps.
        ([], [ToolRequest (''call-'' @ decimal (length steps)) ''setShotId''
                (Obj [(''shotId'', Num 42)])]))"

section \<open>The observer: helper facts\<close>

text \<open>The calls of a pass are those for the parts of the assistant messages, in order.\<close>

lemma observer_effect_parts:
  "observer_effect processed ms = concat (map (observe_part processed) (assistant_parts ms))"
  by (induction ms) (simp_all add: observer_effect_def observe_message_def assistant_parts_def)

text \<open>
  A part whose id is in the set is skipped; a part the observer acts on carries an id and
  is marked; a part that is skipped stays skipped when the set grows.
\<close>

lemma observe_part_skips: "carries t p \<Longrightarrow> t \<in> processed \<Longrightarrow> observe_part processed p = []"
  by (cases p) auto

lemma observe_part_marks:
  "carries t p \<Longrightarrow> observe_part processed p \<noteq> [] \<Longrightarrow>
   SetProcessedToolCalls t \<in> set (observe_part processed p)"
  by (cases p) (auto simp: Let_def split: if_splits)

lemma observe_part_acts_on_call:
  "observe_part processed p \<noteq> [] \<Longrightarrow> \<exists>t. carries t p"
  by (cases p) (auto split: if_splits)

lemma observe_part_stays_skipped:
  "observe_part processed p = [] \<Longrightarrow> processed \<subseteq> processed' \<Longrightarrow> observe_part processed' p = []"
  by (cases p) (auto simp: Let_def split: if_splits)

text \<open>The set after a pass, and after any event.\<close>

lemma processed_foldl:
  "processedToolCalls (foldl (apply_action toStr) c as) =
     processedToolCalls c \<union> {t. SetProcessedToolCalls t \<in> set as}"
proof (induction as arbitrary: c)
  case Nil
  show ?case by simp
next
  case (Cons a as)
  show ?case by (cases a) (auto simp: Cons)
qed

lemma processed_observer_pass:
  "processedToolCalls (observer_pass toStr c ms) =
     processedToolCalls c
       \<union> {t. SetProcessedToolCalls t \<in> set (observer_effect (processedToolCalls c) ms)}"
  by (simp add: observer_pass_def processed_foldl)

lemma processed_settled:
  "processedToolCalls (handleShotQuery_settled toStr sid r c) = processedToolCalls c"
  by (simp add: handleShotQuery_settled_def sendMessage_def split: sum.splits)

lemma processed_step: "processedToolCalls c \<subseteq> processedToolCalls (step toStr c e)"
  by (cases e) (auto simp: processed_observer_pass processed_settled Let_def)

lemma processed_run: "processedToolCalls c \<subseteq> processedToolCalls (run toStr c es)"
  unfolding run_def
proof (induction es arbitrary: c)
  case Nil
  show ?case by simp
next
  case (Cons e es)
  from processed_step [of c toStr e] Cons [of "step toStr c e"] show ?case by auto
qed

text \<open>A pass over the list that has just been observed makes no call.\<close>

lemma second_pass_makes_no_call:
  "observer_effect (processedToolCalls (observer_pass toStr c ms)) ms = []"
proof -
  have "observe_part (processedToolCalls (observer_pass toStr c ms)) p = []"
    if p: "p \<in> set (assistant_parts ms)" for p
  proof (cases "observe_part (processedToolCalls c) p = []")
    case True
    then show ?thesis
      by (rule observe_part_stays_skipped) (simp add: processed_observer_pass)
  next
    case False
    then obtain t where t: "carries t p" using observe_part_acts_on_call by blast
    with False have "SetProcessedToolCalls t \<in> set (observe_part (processedToolCalls c) p)"
      by (simp add: observe_part_marks)
    with p have "SetProcessedToolCalls t \<in> set (observer_effect (processedToolCalls c) ms)"
      by (auto simp: observer_effect_parts)
    then have "t \<in> processedToolCalls (observer_pass toStr c ms)"
      by (simp add: processed_observer_pass)
    with t show ?thesis by (simp add: observe_part_skips)
  qed
  then show ?thesis by (simp add: observer_effect_parts)
qed

text \<open>
  On how many parts with the id \<open>t\<close> a pass acts: on no more than the list carries, on
  none when the id is in the set, and if on some, the id is in the set afterwards.
\<close>

lemma dispatches_le_occurrences: "dispatches t processed ms \<le> occurrences t ms"
proof -
  have "length (filter (\<lambda>p. carries t p \<and> observe_part processed p \<noteq> []) ps)
      \<le> length (filter (carries t) ps)" for ps
    by (induction ps) auto
  then show ?thesis by (simp add: dispatches_def occurrences_def)
qed

lemma dispatches_seen: "t \<in> processed \<Longrightarrow> dispatches t processed ms = 0"
  by (auto simp: dispatches_def filter_empty_conv observe_part_skips)

lemma dispatched_then_processed:
  assumes "0 < dispatches t (processedToolCalls c) ms"
  shows "t \<in> processedToolCalls (observer_pass toStr c ms)"
proof -
  from assms
  have "filter (\<lambda>p. carries t p \<and> observe_part (processedToolCalls c) p \<noteq> [])
          (assistant_parts ms) \<noteq> []"
    by (simp add: dispatches_def)
  then obtain p where p: "p \<in> set (assistant_parts ms)" and t: "carries t p"
    and acts: "observe_part (processedToolCalls c) p \<noteq> []"
    by (auto simp: filter_empty_conv)
  from t acts have "SetProcessedToolCalls t \<in> set (observe_part (processedToolCalls c) p)"
    by (rule observe_part_marks)
  with p have "SetProcessedToolCalls t \<in> set (observer_effect (processedToolCalls c) ms)"
    by (auto simp: observer_effect_parts)
  then show ?thesis by (simp add: processed_observer_pass)
qed

lemma total_dispatches_seen:
  "t \<in> processedToolCalls c \<Longrightarrow> total_dispatches toStr t c es = 0"
proof (induction es arbitrary: c)
  case Nil
  show ?case by simp
next
  case (Cons e es)
  from Cons.prems processed_step [of c toStr e]
  have "t \<in> processedToolCalls (step toStr c e)" by auto
  from Cons.IH [OF this] Cons.prems show ?case
    by (cases e) (simp_all add: dispatches_seen)
qed

lemma total_dispatches_le:
  "(\<forall>ms. MessagesChanged ms \<in> set es \<longrightarrow> occurrences t ms \<le> 1) \<Longrightarrow>
   total_dispatches toStr t c es \<le> 1"
proof (induction es arbitrary: c)
  case Nil
  show ?case by simp
next
  case (Cons e es)
  have rest: "total_dispatches toStr t c' es \<le> 1" for c'
    using Cons.IH [of c'] Cons.prems by simp
  show ?case
  proof (cases e)
    case (MessagesChanged ms)
    have le: "dispatches t (processedToolCalls c) ms \<le> 1"
      using dispatches_le_occurrences [of t "processedToolCalls c" ms] Cons.prems MessagesChanged
      by fastforce
    show ?thesis
    proof (cases "dispatches t (processedToolCalls c) ms = 0")
      case True
      with rest [of "observer_pass toStr c ms"] MessagesChanged show ?thesis by simp
    next
      case False
      then have "t \<in> processedToolCalls (observer_pass toStr c ms)"
        by (simp add: dispatched_then_processed)
      then have "total_dispatches toStr t (observer_pass toStr c ms) es = 0"
        by (rule total_dispatches_seen)
      with le MessagesChanged show ?thesis by simp
    qed
  qed (use rest in simp_all)
qed

text \<open>
  Where \<open>currentShot\<close> ends up: calls that do not set it leave it, and after a call that
  sets it, followed by calls that do not, it is the value set.
\<close>

lemma currentShot_kept:
  "filter is_SetCurrentShot as = [] \<Longrightarrow>
   currentShot (foldl (apply_action toStr) c as) = currentShot c"
proof (induction as arbitrary: c)
  case Nil
  show ?case by simp
next
  case (Cons a as)
  then show ?case by (cases a) (simp_all split: if_splits)
qed

lemma currentShot_last_set:
  "filter is_SetCurrentShot later = [] \<Longrightarrow>
   currentShot (foldl (apply_action toStr) c (earlier @ SetCurrentShot v # later)) = v"
  by (simp add: currentShot_kept)

text \<open>A call id enters the set only through a part whose dispatch succeeded.\<close>

lemma marked_only_if_succeeded:
  "SetProcessedToolCalls t \<in> set (observe_part processed p) \<Longrightarrow>
   carries t p \<and> succeeded p \<and> t \<notin> processed"
  by (cases p) (auto simp: Let_def split: if_splits)

lemma effect_from_part:
  "a \<in> set (observer_effect processed ms) \<Longrightarrow>
   \<exists>p \<in> set (assistant_parts ms). a \<in> set (observe_part processed p)"
  by (auto simp: observer_effect_def observe_message_def assistant_parts_def split: if_splits)

text \<open>A pass that makes no call leaves the client as it was.\<close>

lemma observer_pass_no_effect:
  "observer_effect (processedToolCalls c) ms = [] \<Longrightarrow> observer_pass toStr c ms = c"
  by (simp add: observer_pass_def)

lemma observer_effect_nil:
  "(\<forall>p \<in> set (assistant_parts ms). observe_part processed p = []) \<Longrightarrow>
   observer_effect processed ms = []"
  by (induction ms) (auto simp: observer_effect_def observe_message_def assistant_parts_def)

text \<open>What the observer does with the example part, starting from the empty set.\<close>

lemma example_visualization_effect:
  "observe_part {} example_visualization =
     [SetCurrentShot
        (Obj [(''stones'', Arr (map stone_val example_stones)),
              (''shotInfo'',
               Obj [(''player'', Str ''Gushue''), (''team'', Str ''CAN''),
                    (''type'', Str ''Draw''), (''shotId'', Num 42)])]),
      SetProcessedToolCalls ''call-1'']"
  by (simp add: example_visualization_def visualizeCurlingShot_execute_def)

section \<open>C1: one dispatch per tool call\<close>

text \<open>
  C1, as stated, says that a tool part with a given \<open>toolCallId\<close> that the observer meets
  more than once, in one list or in successive passes, updates the visualization state
  exactly once. Within one pass this fails: the membership test reads the set as it was
  when the pass started, so a list that holds the same part twice has it dispatched twice,
  and \<open>currentShot\<close> is set twice.
\<close>

theorem duplicate_in_one_list_dispatched_twice:
  "occurrences ''call-1'' duplicated_list = 2
   \<and> dispatches ''call-1'' (processedToolCalls initial_client) duplicated_list = 2
   \<and> length (filter is_SetCurrentShot
        (observer_effect (processedToolCalls initial_client) duplicated_list)) = 2"
proof -
  have c: "carries ''call-1'' example_visualization"
    by (simp add: example_visualization_def)
  show ?thesis
    by (simp add: duplicated_list_def initial_client_def occurrences_def assistant_parts_def
        dispatches_def observer_effect_def observe_message_def example_visualization_effect c)
qed

text \<open>
  C1, amended: across passes the guard works. Once the id is in \<open>processedToolCalls\<close>,
  the observer makes no call at all for a part that carries it, in that state and in every
  state the session reaches from it, so no later pass dispatches it. A pass over the list
  that has just been observed (a re-render) makes no call and changes nothing. If a pass
  acts on a part with the id, the id is in the set after that pass and all the dispatches
  of the id are those of that pass. So when every list carries the id at most once (call
  ids are unique in a session), the id is dispatched at most once in the whole session.
\<close>

theorem toolCall_dispatched_once_across_passes:
  "(t \<in> processedToolCalls c \<longrightarrow>
      total_dispatches toStr t c es = 0
      \<and> (\<forall>p. carries t p \<longrightarrow> observe_part (processedToolCalls (run toStr c es)) p = []))
   \<and> observer_effect (processedToolCalls (observer_pass toStr c ms)) ms = []
   \<and> observer_pass toStr (observer_pass toStr c ms) ms = observer_pass toStr c ms
   \<and> (0 < dispatches t (processedToolCalls c) ms \<longrightarrow>
        t \<in> processedToolCalls (observer_pass toStr c ms)
        \<and> total_dispatches toStr t c (MessagesChanged ms # es)
            = dispatches t (processedToolCalls c) ms)
   \<and> ((\<forall>ms. MessagesChanged ms \<in> set es \<longrightarrow> occurrences t ms \<le> 1) \<longrightarrow>
        total_dispatches toStr t c es \<le> 1)"
proof -
  have a: "t \<in> processedToolCalls c \<longrightarrow>
      total_dispatches toStr t c es = 0
      \<and> (\<forall>p. carries t p \<longrightarrow> observe_part (processedToolCalls (run toStr c es)) p = [])"
  proof
    assume t: "t \<in> processedToolCalls c"
    with processed_run [of c toStr es] have "t \<in> processedToolCalls (run toStr c es)"
      by blast
    then have "\<forall>p. carries t p \<longrightarrow> observe_part (processedToolCalls (run toStr c es)) p = []"
      by (simp add: observe_part_skips)
    with t show "total_dispatches toStr t c es = 0
      \<and> (\<forall>p. carries t p \<longrightarrow> observe_part (processedToolCalls (run toStr c es)) p = [])"
      by (simp add: total_dispatches_seen)
  qed
  have b: "observer_effect (processedToolCalls (observer_pass toStr c ms)) ms = []"
    by (rule second_pass_makes_no_call)
  then have b': "observer_pass toStr (observer_pass toStr c ms) ms = observer_pass toStr c ms"
    by (rule observer_pass_no_effect)
  have d: "0 < dispatches t (processedToolCalls c) ms \<longrightarrow>
        t \<in> processedToolCalls (observer_pass toStr c ms)
        \<and> total_dispatches toStr t c (MessagesChanged ms # es)
            = dispatches t (processedToolCalls c) ms"
  proof
    assume "0 < dispatches t (processedToolCalls c) ms"
    then have in_set: "t \<in> processedToolCalls (observer_pass toStr c ms)"
      by (rule dispatched_then_processed)
    then have "total_dispatches toStr t (observer_pass toStr c ms) es = 0"
      by (rule total_dispatches_seen)
    with in_set show "t \<in> processedToolCalls (observer_pass toStr c ms)
        \<and> total_dispatches toStr t c (MessagesChanged ms # es)
            = dispatches t (processedToolCalls c) ms"
      by simp
  qed
  have e: "(\<forall>ms. MessagesChanged ms \<in> set es \<longrightarrow> occurrences t ms \<le> 1) \<longrightarrow>
        total_dispatches toStr t c es \<le> 1"
    using total_dispatches_le by blast
  from a b b' d e show ?thesis by (intro conjI)
qed

theorem toolCall_dispatched_once_across_passes_witness:
  "0 < dispatches ''call-1'' (processedToolCalls initial_client) single_list
   \<and> ''call-1'' \<in> processedToolCalls (observer_pass toStr_whole initial_client single_list)
   \<and> total_dispatches toStr_whole ''call-1'' initial_client
        [MessagesChanged single_list, ShotIdEffect, MessagesChanged single_list] = 1
   \<and> total_dispatches toStr_whole ''call-1''
        (observer_pass toStr_whole initial_client single_list)
        [MessagesChanged single_list, MessagesChanged duplicated_list] = 0
   \<and> observe_part
        (processedToolCalls
           (run toStr_whole (observer_pass toStr_whole initial_client single_list)
              [MessagesChanged single_list, MessagesChanged duplicated_list]))
        example_visualization = []
   \<and> observer_pass toStr_whole (observer_pass toStr_whole initial_client single_list) single_list
       = observer_pass toStr_whole initial_client single_list
   \<and> occurrences ''call-1'' single_list = 1
   \<and> total_dispatches toStr_whole ''call-1'' initial_client
        [MessagesChanged single_list, ShotIdEffect, MessagesChanged single_list] \<le> 1"
proof -
  have car: "carries ''call-1'' example_visualization"
    by (simp add: example_visualization_def)
  have occ: "occurrences ''call-1'' single_list = 1"
    by (simp add: single_list_def occurrences_def assistant_parts_def car)
  have d: "dispatches ''call-1'' (processedToolCalls initial_client) single_list = 1"
    by (simp add: single_list_def initial_client_def dispatches_def assistant_parts_def
        example_visualization_effect car)
  from occ have h: "\<forall>ms. MessagesChanged ms
           \<in> set [MessagesChanged single_list, ShotIdEffect, MessagesChanged single_list]
         \<longrightarrow> occurrences ''call-1'' ms \<le> 1"
    by auto
  from d have pos: "0 < dispatches ''call-1'' (processedToolCalls initial_client) single_list"
    by simp
  note first = toolCall_dispatched_once_across_passes
    [of "''call-1''" initial_client toStr_whole "[ShotIdEffect, MessagesChanged single_list]"
      single_list]
  from first pos d
  have accepted: "''call-1'' \<in> processedToolCalls (observer_pass toStr_whole initial_client single_list)"
    and once: "total_dispatches toStr_whole ''call-1'' initial_client
        [MessagesChanged single_list, ShotIdEffect, MessagesChanged single_list] = 1"
    by simp_all
  from first
  have again: "observer_pass toStr_whole (observer_pass toStr_whole initial_client single_list)
        single_list = observer_pass toStr_whole initial_client single_list"
    by blast
  from toolCall_dispatched_once_across_passes
    [of "''call-1''" "observer_pass toStr_whole initial_client single_list" toStr_whole
      "[MessagesChanged single_list, MessagesChanged duplicated_list]" single_list] accepted car
  have later: "total_dispatches toStr_whole ''call-1''
        (observer_pass toStr_whole initial_client single_list)
        [MessagesChanged single_list, MessagesChanged duplicated_list] = 0"
    and skipped: "observe_part
        (processedToolCalls
           (run toStr_whole (observer_pass toStr_whole initial_client single_list)
              [MessagesChanged single_list, MessagesChanged duplicated_list]))
        example_visualization = []"
    by blast+
  from toolCall_dispatched_once_across_passes
    [of "''call-1''" initial_client toStr_whole
      "[MessagesChanged single_list, ShotIdEffect, MessagesChanged single_list]" single_list] h
  have le: "total_dispatches toStr_whole ''call-1'' initial_client
        [MessagesChanged single_list, ShotIdEffect, MessagesChanged single_list] \<le> 1"
    by blast
  from pos accepted once later skipped again occ le show ?thesis by (intro conjI)
qed

section \<open>C7: the set of processed calls never shrinks\<close>

text \<open>
  C7: \<open>processedToolCalls\<close> grows monotonically. After an observer pass the set is the
  set before the pass together with the ids the pass marked (every update adds one id),
  and no event of the session (a pass, a settled shot query, the shot-id effect, an edit
  of the Shot ID box), nor any sequence of them, removes an element.
\<close>

theorem processedToolCalls_never_shrinks:
  "processedToolCalls c \<subseteq> processedToolCalls (observer_pass toStr c ms)
   \<and> processedToolCalls (observer_pass toStr c ms) =
       processedToolCalls c
         \<union> {t. SetProcessedToolCalls t \<in> set (observer_effect (processedToolCalls c) ms)}
   \<and> processedToolCalls c \<subseteq> processedToolCalls (step toStr c e)
   \<and> processedToolCalls c \<subseteq> processedToolCalls (run toStr c es)"
  using processed_observer_pass [of toStr c ms] processed_step [of c toStr e]
    processed_run [of c toStr es]
  by blast

theorem processedToolCalls_never_shrinks_witness:
  "processedToolCalls initial_client
     \<subseteq> processedToolCalls
          (run toStr_whole initial_client
             [MessagesChanged single_list, ShotQuerySettled (Num 42) (Inr Null), ShotIdInput NaN,
              MessagesChanged []])
   \<and> processedToolCalls (observer_pass toStr_whole initial_client single_list) = {''call-1''}"
proof -
  have "observer_effect {} single_list = observe_part {} example_visualization"
    by (simp add: single_list_def observer_effect_def observe_message_def)
  then have "{t. SetProcessedToolCalls t \<in> set (observer_effect {} single_list)} = {''call-1''}"
    by (simp add: example_visualization_effect)
  with processedToolCalls_never_shrinks
    [of initial_client toStr_whole single_list ShotIdEffect
      "[MessagesChanged single_list, ShotQuerySettled (Num 42) (Inr Null), ShotIdInput NaN,
        MessagesChanged []]"]
  show ?thesis by (simp add: initial_client_def)
qed

section \<open>C8: unknown tools are ignored\<close>

text \<open>
  C8: a tool part whose type is neither \<open>tool-visualizeCurlingShot\<close> nor
  \<open>tool-setShotId\<close> (in any state, with any output) makes the observer call nothing, and
  a pass over it leaves the whole client state, so \<open>currentShot\<close>, \<open>shotId\<close> and
  \<open>processedToolCalls\<close>, as it was. The same holds of a pass over any message list whose
  assistant messages hold no part of a known tool.
\<close>

theorem unrecognized_tool_ignored:
  "(ty \<noteq> ''tool-visualizeCurlingShot'' \<and> ty \<noteq> ''tool-setShotId'' \<longrightarrow>
      observe_part processed (ToolUIPart ty toolCallId st inp out) = []
      \<and> observer_pass toStr c [\<lparr>msg_id = i, role = r, parts = [ToolUIPart ty toolCallId st inp out]\<rparr>] = c)
   \<and> ((\<forall>p \<in> set (assistant_parts ms). \<not> recognized p) \<longrightarrow> observer_pass toStr c ms = c)"
proof (intro conjI impI)
  assume ty: "ty \<noteq> ''tool-visualizeCurlingShot'' \<and> ty \<noteq> ''tool-setShotId''"
  then show "observe_part processed (ToolUIPart ty toolCallId st inp out) = []" by simp
  from ty show "observer_pass toStr c [\<lparr>msg_id = i, role = r, parts = [ToolUIPart ty toolCallId st inp out]\<rparr>] = c"
    by (simp add: observer_pass_def observer_effect_def observe_message_def)
next
  assume a: "\<forall>p \<in> set (assistant_parts ms). \<not> recognized p"
  have "observe_part (processedToolCalls c) p = []" if "\<not> recognized p" for p
    using that by (cases p) auto
  with a have "observer_effect (processedToolCalls c) ms = []"
    by (intro observer_effect_nil) blast
  then show "observer_pass toStr c ms = c" by (rule observer_pass_no_effect)
qed

theorem unrecognized_tool_ignored_witness:
  "''tool-queryDatabase'' \<noteq> ''tool-visualizeCurlingShot''
   \<and> ''tool-queryDatabase'' \<noteq> ''tool-setShotId''
   \<and> observer_pass toStr_whole initial_client
        [\<lparr>msg_id = ''m3'', role = Assistant,
          parts = [ToolUIPart ''tool-queryDatabase'' ''call-3'' OutputAvailable
                     (Obj [(''query'', Str ''select 1'')])
                     (Obj [(''success'', Bool True), (''rows'', Arr []), (''count'', Num 0)])]\<rparr>]
       = initial_client
   \<and> filter recognized
        (assistant_parts
          [\<lparr>msg_id = ''m4'', role = Assistant,
            parts = [TextUIPart ''hello'',
                     ToolUIPart ''tool-futureTool'' ''call-4'' OutputAvailable Null
                       (Obj [(''success'', Bool True)])]\<rparr>]) = []
   \<and> observer_pass toStr_whole initial_client
        [\<lparr>msg_id = ''m4'', role = Assistant,
          parts = [TextUIPart ''hello'',
                   ToolUIPart ''tool-futureTool'' ''call-4'' OutputAvailable Null
                     (Obj [(''success'', Bool True)])]\<rparr>]
       = initial_client"
proof -
  have h: "\<forall>p \<in> set (assistant_parts
          [\<lparr>msg_id = ''m4'', role = Assistant,
            parts = [TextUIPart ''hello'',
                     ToolUIPart ''tool-futureTool'' ''call-4'' OutputAvailable Null
                       (Obj [(''success'', Bool True)])]\<rparr>]). \<not> recognized p"
    by (simp add: assistant_parts_def)
  from unrecognized_tool_ignored
    [of "''tool-queryDatabase''" "{}" "''call-3''" OutputAvailable
      "Obj [(''query'', Str ''select 1'')]"
      "Obj [(''success'', Bool True), (''rows'', Arr []), (''count'', Num 0)]"
      toStr_whole initial_client "''m3''" Assistant
      "[\<lparr>msg_id = ''m4'', role = Assistant,
            parts = [TextUIPart ''hello'',
                     ToolUIPart ''tool-futureTool'' ''call-4'' OutputAvailable Null
                       (Obj [(''success'', Bool True)])]\<rparr>]"] h
  show ?thesis by (simp add: assistant_parts_def)
qed

section \<open>C9: only a successful dispatch marks a call as processed\<close>

text \<open>
  C9: the observer marks a call id only for a part that carries this id, whose output is
  available, whose tool is known, whose \<open>success\<close> is truthy and whose payload field
  (\<open>visualization\<close>, \<open>updateShotId\<close>) is truthy, and only if the id was not yet in the
  set; so an id that a pass adds to the set comes from such a part of the list. A part
  whose \<open>success\<close> is not truthy makes the observer call nothing: a pass over it leaves
  the client, in whatever state it is, unchanged, the id unmarked, and the next pass
  meets the part again in the same way.
\<close>

theorem processed_only_after_successful_dispatch:
  "(SetProcessedToolCalls t \<in> set (observe_part processed p) \<longrightarrow>
      carries t p \<and> succeeded p \<and> t \<notin> processed)
   \<and> (t \<in> processedToolCalls (observer_pass toStr c ms) \<and> t \<notin> processedToolCalls c \<longrightarrow>
        (\<exists>p \<in> set (assistant_parts ms). carries t p \<and> succeeded p))
   \<and> (\<not> truthy (get result ''success'') \<longrightarrow>
        observe_part processed (ToolUIPart ty toolCallId st inp result) = []
        \<and> observer_pass toStr c
            [\<lparr>msg_id = i, role = r, parts = [ToolUIPart ty toolCallId st inp result]\<rparr>] = c)"
proof -
  have a: "SetProcessedToolCalls t \<in> set (observe_part processed p) \<longrightarrow>
      carries t p \<and> succeeded p \<and> t \<notin> processed"
    using marked_only_if_succeeded by blast
  have b: "t \<in> processedToolCalls (observer_pass toStr c ms) \<and> t \<notin> processedToolCalls c \<longrightarrow>
        (\<exists>p \<in> set (assistant_parts ms). carries t p \<and> succeeded p)"
  proof
    assume "t \<in> processedToolCalls (observer_pass toStr c ms) \<and> t \<notin> processedToolCalls c"
    then have "SetProcessedToolCalls t \<in> set (observer_effect (processedToolCalls c) ms)"
      by (auto simp: processed_observer_pass)
    then obtain p where "p \<in> set (assistant_parts ms)"
      and "SetProcessedToolCalls t \<in> set (observe_part (processedToolCalls c) p)"
      using effect_from_part by blast
    then show "\<exists>p \<in> set (assistant_parts ms). carries t p \<and> succeeded p"
      using marked_only_if_succeeded by blast
  qed
  have c: "\<not> truthy (get result ''success'') \<longrightarrow>
        observe_part processed (ToolUIPart ty toolCallId st inp result) = []
        \<and> observer_pass toStr c
            [\<lparr>msg_id = i, role = r, parts = [ToolUIPart ty toolCallId st inp result]\<rparr>] = c"
    by (simp add: observer_pass_def observer_effect_def observe_message_def)
  from a b c show ?thesis by (intro conjI)
qed

theorem processed_only_after_successful_dispatch_witness:
  "\<not> truthy (get (failure ''Shot with ID 9999 not found'') ''success'')
   \<and> observer_pass toStr_whole initial_client
        [\<lparr>msg_id = ''m5'', role = Assistant,
          parts = [ToolUIPart ''tool-setShotId'' ''call-5'' OutputAvailable Null
                     (failure ''Shot with ID 9999 not found'')]\<rparr>]
       = initial_client
   \<and> SetProcessedToolCalls ''call-1'' \<in> set (observe_part {} example_visualization)
   \<and> succeeded example_visualization
   \<and> ''call-1'' \<in> processedToolCalls (observer_pass toStr_whole initial_client single_list)
   \<and> ''call-1'' \<notin> processedToolCalls initial_client
   \<and> (\<exists>p \<in> set (assistant_parts single_list). carries ''call-1'' p \<and> succeeded p)"
proof -
  have h: "\<not> truthy (get (failure ''Shot with ID 9999 not found'') ''success'')"
    by (simp add: failure_def)
  have m: "SetProcessedToolCalls ''call-1'' \<in> set (observe_part {} example_visualization)"
    by (simp add: example_visualization_effect)
  have "observer_effect {} single_list = observe_part {} example_visualization"
    by (simp add: single_list_def observer_effect_def observe_message_def)
  then have a: "''call-1'' \<in> processedToolCalls (observer_pass toStr_whole initial_client single_list)
      \<and> ''call-1'' \<notin> processedToolCalls initial_client"
    by (simp add: processed_observer_pass initial_client_def example_visualization_effect)
  from processed_only_after_successful_dispatch
    [of "''call-1''" "{}" example_visualization toStr_whole initial_client single_list
      "failure ''Shot with ID 9999 not found''" "''tool-setShotId''" "''call-5''"
      OutputAvailable Null "''m5''" Assistant] h m a
  show ?thesis by blast
qed

section \<open>C5: visualizeCurlingShot\<close>

text \<open>What the observer does with the other two parts of the scenario.\<close>

lemma example_setShotId_effect:
  "observe_part {} example_setShotId =
     [SetShotId (Num 42), HandleShotQuery (Num 42), SetProcessedToolCalls ''call-2'']"
  by (simp add: example_setShotId_def setShotId_execute_def Let_def)

lemma example_queryShotDetails_effect: "observe_part {} example_queryShotDetails = []"
  by (simp add: example_queryShotDetails_def)

text \<open>
  C5: \<open>visualizeCurlingShot.execute\<close> returns \<open>success: true\<close> and a \<open>visualization\<close>
  that repeats its five inputs. When the observer accepts a part with this output (the
  call id is not yet processed), it sets \<open>currentShot\<close> to an object built from the
  output alone, with the input stones as \<open>stones\<close> and player, team, shot type and shot
  id as \<open>shotInfo\<close>, and marks the call id; nothing of the old \<open>currentShot\<close> is kept.
  This holds wherever the part stands in the message list: after the pass the call id is
  processed, and \<open>currentShot\<close> is that object unless a later part of the list sets it
  again.
\<close>

theorem visualizeCurlingShot_replaces_currentShot:
  "get (visualizeCurlingShot_execute toStr sid player team shotType stones) ''success'' = Bool True
   \<and> get (visualizeCurlingShot_execute toStr sid player team shotType stones) ''visualization'' =
       Obj [(''shotId'', Num sid), (''player'', Str player), (''team'', Str team),
            (''shotType'', Str shotType), (''stones'', Arr (map stone_val stones))]
   \<and> (toolCallId \<notin> processedToolCalls c \<longrightarrow>
        observe_part (processedToolCalls c)
          (ToolUIPart ''tool-visualizeCurlingShot'' toolCallId OutputAvailable inp
             (visualizeCurlingShot_execute toStr sid player team shotType stones)) =
          [SetCurrentShot
             (Obj [(''stones'', Arr (map stone_val stones)),
                   (''shotInfo'',
                    Obj [(''player'', Str player), (''team'', Str team),
                         (''type'', Str shotType), (''shotId'', Num sid)])]),
           SetProcessedToolCalls toolCallId]
        \<and> observer_pass toStr' c
            [\<lparr>msg_id = i, role = Assistant,
              parts = [ToolUIPart ''tool-visualizeCurlingShot'' toolCallId OutputAvailable inp
                         (visualizeCurlingShot_execute toStr sid player team shotType stones)]\<rparr>] =
          c\<lparr>currentShot :=
               Obj [(''stones'', Arr (map stone_val stones)),
                    (''shotInfo'',
                     Obj [(''player'', Str player), (''team'', Str team),
                          (''type'', Str shotType), (''shotId'', Num sid)])],
             processedToolCalls := insert toolCallId (processedToolCalls c)\<rparr>)
   \<and> (toolCallId \<notin> processedToolCalls c
        \<and> assistant_parts ms =
            earlier
            @ [ToolUIPart ''tool-visualizeCurlingShot'' toolCallId OutputAvailable inp
                 (visualizeCurlingShot_execute toStr sid player team shotType stones)]
            @ later
        \<and> filter is_SetCurrentShot
             (concat (map (observe_part (processedToolCalls c)) later)) = []
        \<longrightarrow>
        currentShot (observer_pass toStr' c ms) =
          Obj [(''stones'', Arr (map stone_val stones)),
               (''shotInfo'',
                Obj [(''player'', Str player), (''team'', Str team),
                     (''type'', Str shotType), (''shotId'', Num sid)])]
        \<and> toolCallId \<in> processedToolCalls (observer_pass toStr' c ms))"
proof -
  let ?P = "ToolUIPart ''tool-visualizeCurlingShot'' toolCallId OutputAvailable inp
              (visualizeCurlingShot_execute toStr sid player team shotType stones)"
  let ?v = "Obj [(''stones'', Arr (map stone_val stones)),
                 (''shotInfo'',
                  Obj [(''player'', Str player), (''team'', Str team),
                       (''type'', Str shotType), (''shotId'', Num sid)])]"
  have a: "get (visualizeCurlingShot_execute toStr sid player team shotType stones) ''success''
      = Bool True"
    by (simp add: visualizeCurlingShot_execute_def)
  have b: "get (visualizeCurlingShot_execute toStr sid player team shotType stones)
        ''visualization'' =
       Obj [(''shotId'', Num sid), (''player'', Str player), (''team'', Str team),
            (''shotType'', Str shotType), (''stones'', Arr (map stone_val stones))]"
    by (simp add: visualizeCurlingShot_execute_def)
  have part: "observe_part (processedToolCalls c) ?P = [SetCurrentShot ?v, SetProcessedToolCalls toolCallId]"
    if "toolCallId \<notin> processedToolCalls c"
    using that by (simp add: visualizeCurlingShot_execute_def)
  have d: "toolCallId \<notin> processedToolCalls c \<longrightarrow>
        observe_part (processedToolCalls c) ?P = [SetCurrentShot ?v, SetProcessedToolCalls toolCallId]
        \<and> observer_pass toStr' c [\<lparr>msg_id = i, role = Assistant, parts = [?P]\<rparr>] =
          c\<lparr>currentShot := ?v, processedToolCalls := insert toolCallId (processedToolCalls c)\<rparr>"
    by (simp add: visualizeCurlingShot_execute_def observer_pass_def observer_effect_def
        observe_message_def)
  have e: "toolCallId \<notin> processedToolCalls c
        \<and> assistant_parts ms = earlier @ [?P] @ later
        \<and> filter is_SetCurrentShot
             (concat (map (observe_part (processedToolCalls c)) later)) = []
        \<longrightarrow>
        currentShot (observer_pass toStr' c ms) = ?v
        \<and> toolCallId \<in> processedToolCalls (observer_pass toStr' c ms)"
  proof
    assume h: "toolCallId \<notin> processedToolCalls c
        \<and> assistant_parts ms = earlier @ [?P] @ later
        \<and> filter is_SetCurrentShot
             (concat (map (observe_part (processedToolCalls c)) later)) = []"
    then have eff: "observer_effect (processedToolCalls c) ms =
        concat (map (observe_part (processedToolCalls c)) earlier)
        @ SetCurrentShot ?v
        # (SetProcessedToolCalls toolCallId
           # concat (map (observe_part (processedToolCalls c)) later))"
      by (simp add: observer_effect_parts part del: observe_part.simps)
    from h have "filter is_SetCurrentShot
        (SetProcessedToolCalls toolCallId
           # concat (map (observe_part (processedToolCalls c)) later)) = []"
      by simp
    then have cs: "currentShot (observer_pass toStr' c ms) = ?v"
      unfolding observer_pass_def eff by (rule currentShot_last_set)
    from eff have "toolCallId \<in> processedToolCalls (observer_pass toStr' c ms)"
      by (simp add: processed_observer_pass)
    with cs show "currentShot (observer_pass toStr' c ms) = ?v
        \<and> toolCallId \<in> processedToolCalls (observer_pass toStr' c ms)"
      by simp
  qed
  from a b d e show ?thesis by (intro conjI)
qed

theorem visualizeCurlingShot_replaces_currentShot_witness:
  "''call-1'' \<notin> processedToolCalls initial_client
   \<and> assistant_parts scenario_conversation =
       [example_setShotId, example_queryShotDetails] @ [example_visualization] @ []
   \<and> currentShot (observer_pass toStr_whole initial_client scenario_conversation) =
       Obj [(''stones'',
             Arr [Obj [(''color'', Str ''red''), (''x'', Num 10), (''y'', Num (- 20))],
                  Obj [(''color'', Str ''yellow''), (''x'', Num 0), (''y'', Num 5)]]),
            (''shotInfo'',
             Obj [(''player'', Str ''Gushue''), (''team'', Str ''CAN''),
                  (''type'', Str ''Draw''), (''shotId'', Num 42)])]
   \<and> ''call-1'' \<in> processedToolCalls (observer_pass toStr_whole initial_client scenario_conversation)
   \<and> observer_pass toStr_whole initial_client single_list =
       \<lparr>currentShot =
          Obj [(''stones'',
                Arr [Obj [(''color'', Str ''red''), (''x'', Num 10), (''y'', Num (- 20))],
                     Obj [(''color'', Str ''yellow''), (''x'', Num 0), (''y'', Num 5)]]),
               (''shotInfo'',
                Obj [(''player'', Str ''Gushue''), (''team'', Str ''CAN''),
                     (''type'', Str ''Draw''), (''shotId'', Num 42)])],
        shotId = Num 42, processedToolCalls = {''call-1''}, fetched = [], sent = []\<rparr>"
proof -
  have ap: "assistant_parts scenario_conversation =
       [example_setShotId, example_queryShotDetails] @ [example_visualization] @ []"
    by (simp add: scenario_conversation_def assistant_parts_def)
  have fresh: "''call-1'' \<notin> processedToolCalls initial_client"
    by (simp add: initial_client_def)
  have none: "filter is_SetCurrentShot
      (concat (map (observe_part (processedToolCalls initial_client)) [])) = []"
    by simp
  note inst = visualizeCurlingShot_replaces_currentShot
    [of toStr_whole 42 "''Gushue''" "''CAN''" "''Draw''" example_stones "''call-1''"
      initial_client "Obj [(''shotId'', Num 42)]" toStr_whole "''m1''" scenario_conversation
      "[example_setShotId, example_queryShotDetails]" "[]"]
  from inst fresh ap none
  have general: "currentShot (observer_pass toStr_whole initial_client scenario_conversation) =
       Obj [(''stones'', Arr (map stone_val example_stones)),
            (''shotInfo'',
             Obj [(''player'', Str ''Gushue''), (''team'', Str ''CAN''),
                  (''type'', Str ''Draw''), (''shotId'', Num 42)])]
     \<and> ''call-1'' \<in> processedToolCalls (observer_pass toStr_whole initial_client scenario_conversation)"
    by (simp add: example_visualization_def)
  from inst fresh
  have single: "observer_pass toStr_whole initial_client single_list =
      initial_client\<lparr>currentShot :=
               Obj [(''stones'', Arr (map stone_val example_stones)),
                    (''shotInfo'',
                     Obj [(''player'', Str ''Gushue''), (''team'', Str ''CAN''),
                          (''type'', Str ''Draw''), (''shotId'', Num 42)])],
             processedToolCalls := insert ''call-1'' (processedToolCalls initial_client)\<rparr>"
    by (simp add: single_list_def example_visualization_def)
  from fresh ap general single show ?thesis
    by (simp add: initial_client_def example_stones_def)
qed

section \<open>C6: setShotId\<close>

text \<open>
  What holds of \<open>setShotId\<close>: \<open>execute\<close> returns \<open>success: true\<close>, the \<open>shotId\<close> it
  was given and \<open>updateShotId: true\<close>. For a part with this output whose call id is not
  yet processed, wherever it stands in the list, the observer sets the tracked \<open>shotId\<close>
  to that number, calls \<open>handleShotQuery\<close> once for it and marks the call id. When a
  fetch settles with a body whose \<open>success\<close>, \<open>shot\<close> and \<open>stones\<close> are truthy, the
  body becomes \<open>currentShot\<close>.
\<close>

lemma setShotId_observer_calls:
  "get (setShotId_execute toStr sid reason) ''success'' = Bool True
   \<and> get (setShotId_execute toStr sid reason) ''shotId'' = Num sid
   \<and> get (setShotId_execute toStr sid reason) ''updateShotId'' = Bool True
   \<and> (toolCallId \<notin> processedToolCalls c \<longrightarrow>
        observe_part (processedToolCalls c)
          (ToolUIPart ''tool-setShotId'' toolCallId OutputAvailable inp
             (setShotId_execute toStr sid reason)) =
          [SetShotId (Num sid), HandleShotQuery (Num sid), SetProcessedToolCalls toolCallId])
   \<and> (toolCallId \<notin> processedToolCalls c
        \<and> ToolUIPart ''tool-setShotId'' toolCallId OutputAvailable inp
             (setShotId_execute toStr sid reason) \<in> set (assistant_parts ms)
        \<longrightarrow> HandleShotQuery (Num sid) \<in> set (observer_effect (processedToolCalls c) ms)
            \<and> toolCallId \<in> processedToolCalls (observer_pass toStr' c ms))
   \<and> (truthy (get data ''success'') \<and> truthy (get data ''shot'') \<and> truthy (get data ''stones'')
        \<longrightarrow> handleShotQuery_settled toStr' v (Inr data) c' = c'\<lparr>currentShot := data\<rparr>)"
proof -
  let ?P = "ToolUIPart ''tool-setShotId'' toolCallId OutputAvailable inp
              (setShotId_execute toStr sid reason)"
  have part: "observe_part (processedToolCalls c) ?P =
      [SetShotId (Num sid), HandleShotQuery (Num sid), SetProcessedToolCalls toolCallId]"
    if "toolCallId \<notin> processedToolCalls c"
    using that by (simp add: setShotId_execute_def Let_def)
  have a: "get (setShotId_execute toStr sid reason) ''success'' = Bool True
   \<and> get (setShotId_execute toStr sid reason) ''shotId'' = Num sid
   \<and> get (setShotId_execute toStr sid reason) ''updateShotId'' = Bool True"
    by (simp add: setShotId_execute_def)
  have b: "toolCallId \<notin> processedToolCalls c \<longrightarrow>
        observe_part (processedToolCalls c) ?P =
          [SetShotId (Num sid), HandleShotQuery (Num sid), SetProcessedToolCalls toolCallId]"
    using part by blast
  have d: "toolCallId \<notin> processedToolCalls c \<and> ?P \<in> set (assistant_parts ms)
        \<longrightarrow> HandleShotQuery (Num sid) \<in> set (observer_effect (processedToolCalls c) ms)
            \<and> toolCallId \<in> processedToolCalls (observer_pass toStr' c ms)"
  proof
    assume h: "toolCallId \<notin> processedToolCalls c \<and> ?P \<in> set (assistant_parts ms)"
    then have "set (observe_part (processedToolCalls c) ?P)
        \<subseteq> set (observer_effect (processedToolCalls c) ms)"
      by (auto simp add: observer_effect_parts simp del: observe_part.simps)
    with h part show "HandleShotQuery (Num sid) \<in> set (observer_effect (processedToolCalls c) ms)
            \<and> toolCallId \<in> processedToolCalls (observer_pass toStr' c ms)"
      by (auto simp add: processed_observer_pass simp del: observe_part.simps)
  qed
  have e: "truthy (get data ''success'') \<and> truthy (get data ''shot'') \<and> truthy (get data ''stones'')
        \<longrightarrow> handleShotQuery_settled toStr' v (Inr data) c' = c'\<lparr>currentShot := data\<rparr>"
  proof
    assume t: "truthy (get data ''success'') \<and> truthy (get data ''shot'')
        \<and> truthy (get data ''stones'')"
    then have "data \<noteq> Null" "data \<noteq> Undefined" by auto
    with t show "handleShotQuery_settled toStr' v (Inr data) c' = c'\<lparr>currentShot := data\<rparr>"
      by (simp add: handleShotQuery_settled_def read_body_def)
  qed
  from a b d e show ?thesis by (intro conjI) simp_all
qed

text \<open>
  C6 says that an accepted \<open>setShotId\<close> output triggers one dependent fetch. The
  observer's branch calls \<open>handleShotQuery(newShotId)\<close> itself, and its
  \<open>setShotId(newShotId)\<close> changes a dependency of the effect that the source comments
  as \<^verbatim>\<open>Load initial shot on mount\<close>, so that effect runs again in the next render and
  fetches the same id a second time. Here the client is mounted with shot 42 and the
  assistant sets the shot id to 7: the observer's pass fetches shot 7 once, and the
  render that follows fetches it again.
\<close>

theorem setShotId_result_fetched_twice:
  "fetched mounted_client = [''/api/shot?id=42'']
   \<and> fetched (observer_pass toStr_whole mounted_client shot7_conversation) =
       [''/api/shot?id=42'', ''/api/shot?id=7'']
   \<and> shotId (render_cycle toStr_whole mounted_client shot7_conversation) = Num 7
   \<and> processedToolCalls (render_cycle toStr_whole mounted_client shot7_conversation) = {''call-7''}
   \<and> fetched (render_cycle toStr_whole mounted_client shot7_conversation) =
       [''/api/shot?id=42'', ''/api/shot?id=7'', ''/api/shot?id=7'']"
proof -
  have m: "mounted_client =
      \<lparr>currentShot = Null, shotId = Num 42, processedToolCalls = {},
       fetched = [''/api/shot?id=42''], sent = []\<rparr>"
    by (simp add: mounted_client_def initial_client_def)
  have p: "observer_pass toStr_whole mounted_client shot7_conversation =
      \<lparr>currentShot = Null, shotId = Num 7, processedToolCalls = {''call-7''},
       fetched = [''/api/shot?id=42'', ''/api/shot?id=7''], sent = []\<rparr>"
    by (simp add: m shot7_conversation_def observer_pass_def observer_effect_def
        observe_message_def setShotId_execute_def Let_def)
  have again: "observer_effect {''call-7''} shot7_conversation = []"
    by (simp add: shot7_conversation_def observer_effect_def observe_message_def)
  have r: "render_cycle toStr_whole mounted_client shot7_conversation =
      \<lparr>currentShot = Null, shotId = Num 7, processedToolCalls = {''call-7''},
       fetched = [''/api/shot?id=42'', ''/api/shot?id=7'', ''/api/shot?id=7''], sent = []\<rparr>"
    unfolding render_cycle_def p
    by (simp add: m observer_pass_def again)
  have f0: "fetched mounted_client = [''/api/shot?id=42'']"
    by (simp add: m)
  have f1: "fetched (observer_pass toStr_whole mounted_client shot7_conversation) =
       [''/api/shot?id=42'', ''/api/shot?id=7'']"
    by (simp add: p)
  have f2: "shotId (render_cycle toStr_whole mounted_client shot7_conversation) = Num 7"
    by (simp add: r)
  have f3: "processedToolCalls (render_cycle toStr_whole mounted_client shot7_conversation)
      = {''call-7''}"
    by (simp add: r)
  have f4: "fetched (render_cycle toStr_whole mounted_client shot7_conversation) =
       [''/api/shot?id=42'', ''/api/shot?id=7'', ''/api/shot?id=7'']"
    by (simp add: r)
  from f0 f1 f2 f3 f4 show ?thesis by (intro conjI)
qed

section \<open>C3: queryShotDetails fails with a structured output\<close>

text \<open>
  C3: for every shot id and every database, \<open>queryShotDetails.execute\<close> returns a value
  and lets no exception out. With no database binding, with a lookup that throws (the
  shot query or the stone query), and with no record for the id, the value is
  \<open>{success: false, error}\<close>; for the missing record the error text is
  \<open>Shot with ID\<close>, the id, \<open>not found\<close>. An observer pass over a \<open>queryShotDetails\<close>
  part, whatever its output, leaves the client state, and so \<open>currentShot\<close>, unchanged.
\<close>

theorem queryShotDetails_failure_is_structured:
  "(\<exists>out. fst (queryShotDetails_execute toStr DB sid) = Inr out)
   \<and> queryShotDetails_execute toStr None sid =
       (Inr (failure ''Database not configured. Please set up D1 binding.''), [])
   \<and> (d1_first db shotQuery [Num sid] = Inl e \<longrightarrow>
        fst (queryShotDetails_execute toStr (Some db) sid) = Inr (failure (error_message toStr e)))
   \<and> (d1_first db shotQuery [Num sid] = Inr row \<and> \<not> truthy row \<longrightarrow>
        fst (queryShotDetails_execute toStr (Some db) sid) =
          Inr (failure (''Shot with ID '' @ toStr (Num sid) @ '' not found'')))
   \<and> (d1_first db shotQuery [Num sid] = Inr row \<and> truthy row
        \<and> d1_all db stoneQuery (Some [Num sid]) = Inl e \<longrightarrow>
        fst (queryShotDetails_execute toStr (Some db) sid) = Inr (failure (error_message toStr e)))
   \<and> observer_pass toStr c
        [\<lparr>msg_id = i, role = r,
          parts = [ToolUIPart ''tool-queryShotDetails'' toolCallId st inp out']\<rparr>] = c"
proof -
  have a: "\<exists>out. fst (queryShotDetails_execute toStr DB sid) = Inr out"
    by (simp add: queryShotDetails_execute_def split: prod.splits sum.splits)
  have b: "queryShotDetails_execute toStr None sid =
       (Inr (failure ''Database not configured. Please set up D1 binding.''), [])"
    by (simp add: queryShotDetails_execute_def queryShotDetails_try_def)
  have c: "d1_first db shotQuery [Num sid] = Inl e \<longrightarrow>
        fst (queryShotDetails_execute toStr (Some db) sid) = Inr (failure (error_message toStr e))"
    by (simp add: queryShotDetails_execute_def queryShotDetails_try_def)
  have d: "d1_first db shotQuery [Num sid] = Inr row \<and> \<not> truthy row \<longrightarrow>
        fst (queryShotDetails_execute toStr (Some db) sid) =
          Inr (failure (''Shot with ID '' @ toStr (Num sid) @ '' not found''))"
    by (simp add: queryShotDetails_execute_def queryShotDetails_try_def)
  have e: "d1_first db shotQuery [Num sid] = Inr row \<and> truthy row
        \<and> d1_all db stoneQuery (Some [Num sid]) = Inl e \<longrightarrow>
        fst (queryShotDetails_execute toStr (Some db) sid) = Inr (failure (error_message toStr e))"
    by (simp add: queryShotDetails_execute_def queryShotDetails_try_def)
  have f: "observer_pass toStr c
        [\<lparr>msg_id = i, role = r,
          parts = [ToolUIPart ''tool-queryShotDetails'' toolCallId st inp out']\<rparr>] = c"
    by (simp add: observer_pass_def observer_effect_def observe_message_def)
  from a b c d e f show ?thesis by (intro conjI)
qed

theorem queryShotDetails_failure_is_structured_witness:
  "d1_first empty_db shotQuery [Num 9999] = Inr Null \<and> \<not> truthy Null
   \<and> fst (queryShotDetails_execute toStr_whole (Some empty_db) 9999) =
       Inr (Obj [(''success'', Bool False), (''error'', Str ''Shot with ID 9999 not found'')])
   \<and> d1_first failing_db shotQuery [Num 9999] = Inl (Error ''D1_ERROR: no such table'')
   \<and> fst (queryShotDetails_execute toStr_whole (Some failing_db) 9999) =
       Inr (Obj [(''success'', Bool False), (''error'', Str ''D1_ERROR: no such table'')])
   \<and> d1_all stones_failing_db stoneQuery (Some [Num 42]) = Inl (Thrown (Str ''timeout''))
   \<and> fst (queryShotDetails_execute toStr_whole (Some stones_failing_db) 42) =
       Inr (Obj [(''success'', Bool False), (''error'', Str ''timeout'')])"
proof -
  have h1: "d1_first empty_db shotQuery [Num 9999] = Inr Null \<and> \<not> truthy Null"
    by (simp add: empty_db_def)
  have h2: "d1_first failing_db shotQuery [Num 9999] = Inl (Error ''D1_ERROR: no such table'')"
    by (simp add: failing_db_def)
  have h3: "d1_first stones_failing_db shotQuery [Num 42] =
        Inr (Obj [(''shot_id'', Num 42), (''player_name'', Str ''Gushue'')])
      \<and> truthy (Obj [(''shot_id'', Num 42), (''player_name'', Str ''Gushue'')])
      \<and> d1_all stones_failing_db stoneQuery (Some [Num 42]) = Inl (Thrown (Str ''timeout''))"
    by (simp add: stones_failing_db_def)
  have p: "toStr_whole (Num 9999) = ''9999''" by simp
  from h1 queryShotDetails_failure_is_structured
    [of toStr_whole "Some empty_db" 9999 empty_db "Error ''x''" Null]
  have r1: "fst (queryShotDetails_execute toStr_whole (Some empty_db) 9999) =
       Inr (failure (''Shot with ID '' @ toStr_whole (Num 9999) @ '' not found''))"
    by blast
  from h2 queryShotDetails_failure_is_structured
    [of toStr_whole "Some failing_db" 9999 failing_db "Error ''D1_ERROR: no such table''" Null]
  have r2: "fst (queryShotDetails_execute toStr_whole (Some failing_db) 9999) =
       Inr (failure (error_message toStr_whole (Error ''D1_ERROR: no such table'')))"
    by blast
  from h3 queryShotDetails_failure_is_structured
    [of toStr_whole "Some stones_failing_db" 42 stones_failing_db "Thrown (Str ''timeout'')"
      "Obj [(''shot_id'', Num 42), (''player_name'', Str ''Gushue'')]"]
  have r3: "fst (queryShotDetails_execute toStr_whole (Some stones_failing_db) 42) =
       Inr (failure (error_message toStr_whole (Thrown (Str ''timeout''))))"
    by blast
  from h1 h2 h3 r1 r2 r3 p show ?thesis by (simp add: failure_def)
qed

section \<open>C10: the SELECT guard of queryDatabase\<close>

text \<open>
  C10, as stated, says that every query whose trimmed, lower-cased text starts with
  \<open>select\<close> is submitted to the database. After the prefix check comes a second check,
  of the database binding: with no binding, such a query is answered with
  \<open>Database not configured\<close> and no statement is submitted.
\<close>

theorem select_without_binding_not_submitted:
  "startsWith (toLowerCase (trim ''select 1'')) ''select''
   \<and> queryDatabase_execute toStr_whole None ''select 1'' None =
       (Obj [(''success'', Bool False),
             (''error'', Str ''Database not configured. Please set up D1 binding.'')],
        [])"
  by (simp add: queryDatabase_execute_def startsWith_def toLowerCase_def trim_def
      isWhiteSpace_def lower_char_def failure_def)

text \<open>
  C10, amended: a query whose trimmed, lower-cased text does not start with \<open>select\<close>
  is answered with \<open>{success: false, error}\<close> and no statement is submitted, whatever
  the binding. A query whose text does start so (\<open>selection\<close> too) is submitted when the
  database binding is present: one statement, prepared from the query as given, bound to
  the parameters if there are any; with no binding it is answered with
  \<open>Database not configured\<close> and nothing is submitted.
\<close>

theorem queryDatabase_select_guard:
  "(\<not> startsWith (toLowerCase (trim query)) ''select'' \<longrightarrow>
      queryDatabase_execute toStr DB query params =
        (failure
           ''Only SELECT queries are allowed with this tool. Use querySQLiteDatabase for other operations.'',
         []))
   \<and> (startsWith (toLowerCase (trim query)) ''select'' \<longrightarrow>
        snd (queryDatabase_execute toStr (Some db) query params) = [RunAll query (bound_params params)]
        \<and> queryDatabase_execute toStr None query params =
            (failure ''Database not configured. Please set up D1 binding.'', []))"
  by (simp add: queryDatabase_execute_def Let_def split: sum.splits)

text \<open>Two query texts, one on each side of the guard.\<close>

lemma selection_passes: "startsWith (toLowerCase (trim ''  SELECTION of stones '')) ''select''"
  by code_simp

lemma drop_rejected: "\<not> startsWith (toLowerCase (trim ''DROP TABLE shots'')) ''select''"
  by code_simp

theorem queryDatabase_select_guard_witness:
  "startsWith (toLowerCase (trim ''  SELECTION of stones '')) ''select''
   \<and> snd (queryDatabase_execute toStr_whole (Some empty_db) ''  SELECTION of stones '' (Some [])) =
       [RunAll ''  SELECTION of stones '' None]
   \<and> \<not> startsWith (toLowerCase (trim ''DROP TABLE shots'')) ''select''
   \<and> snd (queryDatabase_execute toStr_whole (Some empty_db) ''DROP TABLE shots'' None) = []"
  using queryDatabase_select_guard
      [of "''  SELECTION of stones ''" toStr_whole "Some empty_db" "Some []" empty_db]
    queryDatabase_select_guard
      [of "''DROP TABLE shots''" toStr_whole "Some empty_db" None empty_db]
    selection_passes drop_rejected
  by (simp add: bound_params_def)

section \<open>C4: sanitizing twice and sanitizing once\<close>





section \<open>C2: the step loop stops after ten steps\<close>

text \<open>The loop never goes past its bound, and a model that always asks for a call reaches it.\<close>

lemma model_loop_length:
  "length steps < maxSteps \<Longrightarrow>
   length (fst (model_loop maxSteps toStr reg llm history steps)) \<le> maxSteps"
proof (induction maxSteps toStr reg llm history steps rule: model_loop.induct)
  case (1 maxSteps toStr reg llm history steps)
  then show ?case by (subst model_loop.simps) auto
qed

lemma run_call_not_pending:
  "runs_unattended reg rq \<Longrightarrow> \<not> pending (run_call toStr reg rq)"
  by (cases rq) (auto split: option.splits tool_def.splits sum.splits)

lemma always_requests_step:
  assumes "always_requests reg llm"
  shows "snd (run_step toStr reg llm history steps) \<noteq> []"
    and "\<not> list_ex pending (snd (run_step toStr reg llm history steps))"
proof -
  from assms show "snd (run_step toStr reg llm history steps) \<noteq> []"
    by (simp add: always_requests_def run_step_def)
  from assms have "list_all (runs_unattended reg) (snd (llm history steps))"
    by (simp add: always_requests_def)
  then show "\<not> list_ex pending (snd (run_step toStr reg llm history steps))"
    by (auto simp: run_step_def list_ex_iff list_all_iff run_call_not_pending)
qed

lemma model_loop_exhausts:
  "always_requests reg llm \<Longrightarrow> length steps < maxSteps \<Longrightarrow>
   length (fst (model_loop maxSteps toStr reg llm history steps)) = maxSteps
   \<and> snd (model_loop maxSteps toStr reg llm history steps) = StepBoundReached"
proof (induction maxSteps toStr reg llm history steps rule: model_loop.induct)
  case (1 maxSteps toStr reg llm history steps)
  note st = always_requests_step [OF 1(2), of toStr history steps]
  show ?case
  proof (cases "maxSteps \<le> Suc (length steps)")
    case True
    with st 1(3) show ?thesis by (subst (1 2) model_loop.simps) simp
  next
    case False
    with 1(1) [OF st(1) st(2) False 1(2)] st show ?thesis
      by (subst (1 2) model_loop.simps) simp
  qed
qed

text \<open>
  C2: for every history, every model and every registry, a turn has at most 10 steps. A
  model that requests a tool call in every step is stopped after exactly 10 steps, and the
  turn ends by the step bound, which is one of the normal ends of a turn; the loop has no
  erroneous end.
\<close>

theorem streamText_at_most_ten_steps:
  "length (fst (streamText toStr reg llm history)) \<le> 10
   \<and> (always_requests reg llm \<longrightarrow>
        length (fst (streamText toStr reg llm history)) = 10
        \<and> snd (streamText toStr reg llm history) = StepBoundReached)"
  using model_loop_length [of "[]" 10 toStr reg llm history]
    model_loop_exhausts [of reg llm "[]" 10 toStr history]
  by (simp add: streamText_def)

theorem streamText_at_most_ten_steps_witness:
  "always_requests example_registry eager_model
   \<and> length (fst (streamText toStr_whole example_registry eager_model [])) = 10
   \<and> snd (streamText toStr_whole example_registry eager_model []) = StepBoundReached"
proof -
  have h: "always_requests example_registry eager_model"
    by (simp add: always_requests_def example_registry_def eager_model_def)
  with streamText_at_most_ten_steps [of toStr_whole example_registry eager_model "[]"]
  show ?thesis by blast
qed

end
